theory Spec2Isabelle
  imports Complex_Main
begin

section \<open>Exceptions and Python values\<close>

text \<open>
  Modelled from the spec: the exception classes of \<^verbatim>\<open>src/capture/exceptions.py\<close>, which is
  not among the source files. The spec's error taxonomy lists three unrelated kinds (open,
  read, save); none is a subclass of another. The remaining constructors are the built-in
  exceptions the code can meet: \<^verbatim>\<open>AttributeError\<close> for an attribute looked up on a value
  that has none, \<^verbatim>\<open>ValueError\<close> and \<^verbatim>\<open>OverflowError\<close> from \<^verbatim>\<open>int()\<close> of a float that
  is not finite, \<^verbatim>\<open>cv2.error\<close> from the video backend, \<^verbatim>\<open>KeyboardInterrupt\<close>, and
  \<^verbatim>\<open>StopIteration\<close> from an exhausted generator.
\<close>

datatype error =
    CameraOpenError
  | CameraReadError
  | FrameSaveError
  | AttributeError
  | ValueError
  | OverflowError
  | Cv2Error
  | KeyboardInterrupt
  | StopIteration

text \<open>
  \<^verbatim>\<open>KeyboardInterrupt\<close> derives from \<^verbatim>\<open>BaseException\<close>; every other kind above derives from
  \<^verbatim>\<open>Exception\<close>.
\<close>

fun is_Exception :: "error \<Rightarrow> bool" where
  "is_Exception KeyboardInterrupt = False"
| "is_Exception _ = True"

text \<open>
  A Python float as the backend returns it: a finite value (read as a real number, so
  \<^verbatim>\<open>-0.0\<close> and \<^verbatim>\<open>0.0\<close> coincide), an infinity or a NaN.
\<close>

datatype pyfloat = Finite real | PosInf | NegInf | NaN

text \<open>Truth value of a float: only zero is false.\<close>

fun truthy :: "pyfloat \<Rightarrow> bool" where
  "truthy (Finite x) = (x \<noteq> 0)"
| "truthy _ = True"

text \<open>\<^verbatim>\<open>int(x)\<close> truncates towards zero and raises on a value that is not finite.\<close>

definition trunc :: "real \<Rightarrow> int" where
  "trunc x = (if 0 \<le> x then \<lfloor>x\<rfloor> else - \<lfloor>- x\<rfloor>)"

fun py_int :: "pyfloat \<Rightarrow> error + int" where
  "py_int (Finite x) = Inr (trunc x)"
| "py_int NaN = Inl ValueError"
| "py_int PosInf = Inl OverflowError"
| "py_int NegInf = Inl OverflowError"

text \<open>\<^verbatim>\<open>int(x or 0)\<close> and \<^verbatim>\<open>float(x or 0.0)\<close>.\<close>

definition int_or_0 :: "pyfloat \<Rightarrow> error + int" where
  "int_or_0 x = (if truthy x then py_int x else Inr 0)"

definition float_or_0 :: "pyfloat \<Rightarrow> pyfloat" where
  "float_or_0 x = (if truthy x then x else Finite 0)"

section \<open>Frames and the video backend\<close>

text \<open>
  A frame is a buffer of three-channel pixels. \<^verbatim>\<open>cv2.cvtColor\<close> with \<^verbatim>\<open>COLOR_BGR2RGB\<close> or
  \<^verbatim>\<open>COLOR_RGB2BGR\<close> exchanges the first and the third channel.
\<close>

type_synonym pixel = "nat \<times> nat \<times> nat"
type_synonym frame = "pixel list"

definition cvtColor :: "frame \<Rightarrow> frame" where
  "cvtColor f = map (\<lambda>(a, b, c). (c, b, a)) f"

datatype cv_prop = CAP_PROP_FRAME_WIDTH | CAP_PROP_FRAME_HEIGHT | CAP_PROP_FPS

text \<open>
  A \<^verbatim>\<open>cv2.VideoCapture\<close> object: whether it opened, the outcomes of its coming \<^verbatim>\<open>read()\<close>
  calls (\<open>None\<close> is \<^verbatim>\<open>ok = False\<close>; after the last one every read fails), the value
  \<^verbatim>\<open>get\<close> reports for each property, the properties \<^verbatim>\<open>set\<close> takes effect on (the
  backend ignores the others without an error), and whether \<^verbatim>\<open>release()\<close> of the open
  device raises.
\<close>

record VideoCapture =
  isOpened :: bool
  feed :: "frame option list"
  props :: "cv_prop \<Rightarrow> pyfloat"
  settable :: "cv_prop list"
  release_raises :: bool

definition cap_get :: "VideoCapture \<Rightarrow> cv_prop \<Rightarrow> pyfloat" where
  "cap_get c p = props c p"

definition cap_set :: "VideoCapture \<Rightarrow> cv_prop \<Rightarrow> real \<Rightarrow> VideoCapture" where
  "cap_set c p v = (if p \<in> set (settable c) then c\<lparr>props := (props c)(p := Finite v)\<rparr> else c)"

text \<open>\<^verbatim>\<open>ok, frame = cap.read()\<close>: a capture that is not open, or has nothing left, has no frame.\<close>

definition cap_read :: "VideoCapture \<Rightarrow> frame option \<times> VideoCapture" where
  "cap_read c =
     (if \<not> isOpened c then (None, c)
      else case feed c of [] \<Rightarrow> (None, c) | x # xs \<Rightarrow> (x, c\<lparr>feed := xs\<rparr>))"

text \<open>
  \<^verbatim>\<open>cap.release()\<close>: a capture that never opened holds no device and its release does
  nothing; the release of an open device may raise.
\<close>

definition release :: "VideoCapture \<Rightarrow> error option" where
  "release c = (if isOpened c \<and> release_raises c then Some Cv2Error else None)"

text \<open>
  The backend: the capture object \<^verbatim>\<open>cv2.VideoCapture(source)\<close> constructs for each source,
  and the log of the captures \<^verbatim>\<open>release()\<close> was called on (latest first).
\<close>

datatype source_id = Device int | Location string

record backend =
  connect :: "source_id \<Rightarrow> VideoCapture"
  released :: "VideoCapture list"

text \<open>\<^verbatim>\<open>with contextlib.suppress(Exception)\<close>: every \<^verbatim>\<open>Exception\<close> raised in the block is dropped.\<close>

definition suppress_Exception :: "error option \<Rightarrow> error option" where
  "suppress_Exception r =
     (case r of None \<Rightarrow> None | Some e \<Rightarrow> if is_Exception e then None else Some e)"

section \<open>The capture session (capture/capture.py)\<close>

text \<open>
  Modelled from the spec: \<^verbatim>\<open>CameraConfig\<close> of \<^verbatim>\<open>src/configs/camera.py\<close>, which is not among the
  source files; the spec's CaptureConfig gives its fields.
\<close>

record CameraConfig =
  source :: source_id
  width :: "int option"
  height :: "int option"
  fps :: "real option"
  convert_to_rgb :: bool

text \<open>The object's attributes \<^verbatim>\<open>config\<close>, \<^verbatim>\<open>_cap\<close> and \<^verbatim>\<open>_is_open\<close>.\<close>

record CameraFrameCapture =
  config :: CameraConfig
  cap :: "VideoCapture option"
  is_open :: bool

text \<open>
  Every method takes the object and the backend and returns what it raised or returned
  together with the object and the backend as the call leaves them: an exception does not
  undo the assignments made before it.
\<close>

text \<open>\<^verbatim>\<open>__init__\<close>; the default \<^verbatim>\<open>CameraConfig()\<close> is a parameter.\<close>

definition init :: "CameraConfig \<Rightarrow> CameraConfig option \<Rightarrow> CameraFrameCapture" where
  "init dflt cfg =
     \<lparr>config = (case cfg of None \<Rightarrow> dflt | Some c \<Rightarrow> c), cap = None, is_open = False\<rparr>"

definition set_if_given :: "VideoCapture \<Rightarrow> cv_prop \<Rightarrow> real option \<Rightarrow> VideoCapture" where
  "set_if_given c p v = (case v of None \<Rightarrow> c | Some x \<Rightarrow> cap_set c p x)"

definition open_session ::
  "CameraFrameCapture \<Rightarrow> backend \<Rightarrow> error option \<times> CameraFrameCapture \<times> backend" where
  "open_session s B =
     (if is_open s then (None, s, B)
      else
        let c = connect B (source (config s)) in
        if \<not> isOpened c then
          (case release c of
             Some e \<Rightarrow> (Some e, s, B\<lparr>released := c # released B\<rparr>)
           | None \<Rightarrow> (Some CameraOpenError, s, B\<lparr>released := c # released B\<rparr>))
        else
          let c1 = set_if_given c CAP_PROP_FRAME_WIDTH (map_option real_of_int (width (config s)));
              c2 = set_if_given c1 CAP_PROP_FRAME_HEIGHT (map_option real_of_int (height (config s)));
              c3 = set_if_given c2 CAP_PROP_FPS (fps (config s))
          in (None, s\<lparr>cap := Some c3, is_open := True\<rparr>, B))"

definition close ::
  "CameraFrameCapture \<Rightarrow> backend \<Rightarrow> error option \<times> CameraFrameCapture \<times> backend" where
  "close s B =
     (case cap s of
        Some c \<Rightarrow>
          (case suppress_Exception (release c) of
             Some e \<Rightarrow> (Some e, s, B\<lparr>released := c # released B\<rparr>)
           | None \<Rightarrow> (None, s\<lparr>cap := None, is_open := False\<rparr>, B\<lparr>released := c # released B\<rparr>))
      | None \<Rightarrow> (None, s\<lparr>cap := None, is_open := False\<rparr>, B))"

text \<open>The guard \<^verbatim>\<open>if not self._is_open: self.open()\<close> that starts most methods.\<close>

definition ensure_open ::
  "CameraFrameCapture \<Rightarrow> backend \<Rightarrow> error option \<times> CameraFrameCapture \<times> backend" where
  "ensure_open s B = (if \<not> is_open s then open_session s B else (None, s, B))"

definition read ::
  "CameraFrameCapture \<Rightarrow> backend \<Rightarrow> (error + frame) \<times> CameraFrameCapture \<times> backend" where
  "read s B =
     (case ensure_open s B of
        (Some e, s1, B1) \<Rightarrow> (Inl e, s1, B1)
      | (None, s1, B1) \<Rightarrow>
          (case cap s1 of
             None \<Rightarrow> (Inl AttributeError, s1, B1)
           | Some c \<Rightarrow>
               (case cap_read c of
                  (None, c') \<Rightarrow> (Inl CameraReadError, s1\<lparr>cap := Some c'\<rparr>, B1)
                | (Some f, c') \<Rightarrow>
                    (Inr (if convert_to_rgb (config s1) then cvtColor f else f),
                     s1\<lparr>cap := Some c'\<rparr>, B1))))"

definition get_actual_properties ::
  "CameraFrameCapture \<Rightarrow> backend \<Rightarrow>
     (error + int \<times> int \<times> pyfloat) \<times> CameraFrameCapture \<times> backend" where
  "get_actual_properties s B =
     (case ensure_open s B of
        (Some e, s1, B1) \<Rightarrow> (Inl e, s1, B1)
      | (None, s1, B1) \<Rightarrow>
          (case cap s1 of
             None \<Rightarrow> (Inl AttributeError, s1, B1)
           | Some c \<Rightarrow>
               (case int_or_0 (cap_get c CAP_PROP_FRAME_WIDTH) of
                  Inl e \<Rightarrow> (Inl e, s1, B1)
                | Inr w \<Rightarrow>
                    (case int_or_0 (cap_get c CAP_PROP_FRAME_HEIGHT) of
                       Inl e \<Rightarrow> (Inl e, s1, B1)
                     | Inr h \<Rightarrow> (Inr (w, h, float_or_0 (cap_get c CAP_PROP_FPS)), s1, B1)))))"

text \<open>
  \<^verbatim>\<open>__iter__\<close> is a generator. Its first \<^verbatim>\<open>next\<close> runs the opening guard and then the first
  pass of the loop; each later \<^verbatim>\<open>next\<close> runs one pass. An exception leaving the generator
  finishes it, and a finished generator raises \<^verbatim>\<open>StopIteration\<close>.
\<close>

datatype generator = Created | Suspended | Finished

definition iter_next ::
  "generator \<Rightarrow> CameraFrameCapture \<Rightarrow> backend \<Rightarrow>
     (error + frame) \<times> generator \<times> CameraFrameCapture \<times> backend" where
  "iter_next g s B =
     (case g of
        Finished \<Rightarrow> (Inl StopIteration, Finished, s, B)
      | Suspended \<Rightarrow>
          (case read s B of
             (Inl e, s1, B1) \<Rightarrow> (Inl e, Finished, s1, B1)
           | (Inr f, s1, B1) \<Rightarrow> (Inr f, Suspended, s1, B1))
      | Created \<Rightarrow>
          (case ensure_open s B of
             (Some e, s1, B1) \<Rightarrow> (Inl e, Finished, s1, B1)
           | (None, s1, B1) \<Rightarrow>
               (case read s1 B1 of
                  (Inl e, s2, B2) \<Rightarrow> (Inl e, Finished, s2, B2)
                | (Inr f, s2, B2) \<Rightarrow> (Inr f, Suspended, s2, B2))))"

text \<open>
  The invariant of the data model: \<^verbatim>\<open>_is_open\<close> holds exactly when \<^verbatim>\<open>_cap\<close> is a capture
  (not \<^verbatim>\<open>None\<close>) that opened.
\<close>

definition session_inv :: "CameraFrameCapture \<Rightarrow> bool" where
  "session_inv s = (is_open s = (case cap s of None \<Rightarrow> False | Some c \<Rightarrow> isOpened c))"

section \<open>Paths, file names and the file system\<close>

text \<open>
  A \<^verbatim>\<open>pathlib.Path\<close> is the list of its components; a path argument typed
  \<^verbatim>\<open>str | Path\<close> is either a plain string or such an object. \<^verbatim>\<open>Path(x)\<close> cuts a string at
  the separators (the root marker of an absolute path is not kept), \<^verbatim>\<open>p / name\<close> appends
  one component (a file name holds no separator), \<^verbatim>\<open>p.parent\<close> drops the last one.
\<close>

type_synonym path = "string list"

datatype pathlike = PyStr string | PyPath path

fun split_sep :: "string \<Rightarrow> string \<Rightarrow> path" where
  "split_sep cur [] = (if cur = [] then [] else [cur])"
| "split_sep cur (c # cs) =
     (if c = CHR ''/'' then (if cur = [] then [] else [cur]) @ split_sep [] cs
      else split_sep (cur @ [c]) cs)"

fun Path_of :: "pathlike \<Rightarrow> path" where
  "Path_of (PyStr s) = split_sep [] s"
| "Path_of (PyPath p) = p"

definition joinpath :: "path \<Rightarrow> string \<Rightarrow> path" where
  "joinpath p name = p @ [name]"

definition parent :: "path \<Rightarrow> path" where
  "parent p = butlast p"

text \<open>The directory itself and all its ancestors, outermost first.\<close>

fun with_parents :: "path \<Rightarrow> path list" where
  "with_parents [] = [[]]"
| "with_parents (x # xs) = [] # map ((#) x) (with_parents xs)"

text \<open>
  The file system as the code touches it: the directories that exist, the files written
  by \<^verbatim>\<open>cv2.imwrite\<close> in the order of the calls, and the paths at which \<^verbatim>\<open>cv2.imwrite\<close>
  succeeds (it returns \<^verbatim>\<open>False\<close> at the others and writes nothing).
\<close>

record filesystem =
  dirs :: "path list"
  files :: "(path \<times> frame) list"
  writable :: "path \<Rightarrow> bool"

text \<open>\<^verbatim>\<open>p.mkdir(parents=True, exist_ok=True)\<close>, taken to succeed.\<close>

definition mkdir :: "path \<Rightarrow> filesystem \<Rightarrow> filesystem" where
  "mkdir p fs = fs\<lparr>dirs := dirs fs @ filter (\<lambda>q. q \<notin> set (dirs fs)) (with_parents p)\<rparr>"

text \<open>\<^verbatim>\<open>f"{filename_prefix}_{frame_count:06d}.jpg"\<close>: decimal digits, zero-padded to width 6.\<close>

definition digit_char :: "nat \<Rightarrow> char" where
  "digit_char d = ''0123456789'' ! d"

fun digits :: "nat \<Rightarrow> string" where
  "digits n = (if n < 10 then [digit_char n] else digits (n div 10) @ [digit_char (n mod 10)])"

declare digits.simps [simp del]

definition fmt_06d :: "nat \<Rightarrow> string" where
  "fmt_06d n = replicate (6 - length (digits n)) CHR ''0'' @ digits n"

definition filename :: "string \<Rightarrow> nat \<Rightarrow> string" where
  "filename filename_prefix frame_count = filename_prefix @ ''_'' @ fmt_06d frame_count @ ''.jpg''"

section \<open>Saving frames (capture/capture.py)\<close>

text \<open>
  \<^verbatim>\<open>save_frame\<close> starts with \<^verbatim>\<open>file_path.parent\<close>, an attribute a \<^verbatim>\<open>str\<close> does not have. The
  result carries the file system as the call leaves it.
\<close>

definition save_frame ::
  "CameraFrameCapture \<Rightarrow> frame \<Rightarrow> pathlike \<Rightarrow> filesystem \<Rightarrow> (error + path) \<times> filesystem" where
  "save_frame s frame file_path fs =
     (case file_path of
        PyStr _ \<Rightarrow> (Inl AttributeError, fs)
      | PyPath p \<Rightarrow>
          let fs1 = mkdir (parent p) fs;
              frame_to_save = (if convert_to_rgb (config s) then cvtColor frame else frame)
          in if writable fs1 p
             then (Inr p, fs1\<lparr>files := files fs1 @ [(p, frame_to_save)]\<rparr>)
             else (Inl FrameSaveError, fs1))"

text \<open>
  One pass of the \<^verbatim>\<open>while True\<close> loop of \<^verbatim>\<open>save_stream\<close> is driven by a tick: the value
  \<^verbatim>\<open>time.time()\<close> returns in that pass and the place, if any, where a
  \<^verbatim>\<open>KeyboardInterrupt\<close> is raised in that pass. Python raises it between two operations.
  One place lies outside the \<^verbatim>\<open>try\<close> block, where no handler is active: the head of the
  loop, that is the \<^verbatim>\<open>while True\<close> line and the jump back to it (\<open>BetweenPasses\<close>). Three
  places inside the \<^verbatim>\<open>try\<close> block differ in what has happened before: before the frame
  is requested, after \<^verbatim>\<open>self.read()\<close> has taken the frame, and after \<^verbatim>\<open>self.save_frame\<close>
  has written it (before the two assignments that follow). A place the pass does not
  reach raises nothing.
\<close>

datatype interrupt = NoInterrupt | BetweenPasses | BeforeRead | AfterRead | AfterWrite

datatype tick = Tick real interrupt

fun at_loop_head :: "tick \<Rightarrow> bool" where
  "at_loop_head (Tick current_time i) = (i = BetweenPasses)"

text \<open>The variables of the running loop.\<close>

record recorder =
  sess :: CameraFrameCapture
  bk :: backend
  disk :: filesystem
  last_save_time :: real
  frame_count :: nat

text \<open>
  The \<^verbatim>\<open>try\<close> block: the exception that leaves it, if any, and the variables after it.
  (The loop does not enter it on a tick interrupted at the head of the loop.)
\<close>

definition try_body ::
  "path \<Rightarrow> real \<Rightarrow> string \<Rightarrow> tick \<Rightarrow> recorder \<Rightarrow> error option \<times> recorder" where
  "try_body save_path interval filename_prefix t r =
     (case t of Tick current_time i \<Rightarrow>
        if i = BeforeRead then (Some KeyboardInterrupt, r)
        else if current_time - last_save_time r \<ge> interval then
          (case read (sess r) (bk r) of
             (Inl e, s1, B1) \<Rightarrow> (Some e, r\<lparr>sess := s1, bk := B1\<rparr>)
           | (Inr frame, s1, B1) \<Rightarrow>
               let r1 = r\<lparr>sess := s1, bk := B1\<rparr> in
               if i = AfterRead then (Some KeyboardInterrupt, r1)
               else
                 (case save_frame s1 frame
                         (PyPath (joinpath save_path (filename filename_prefix (frame_count r1))))
                         (disk r1) of
                    (Inl e, fs1) \<Rightarrow> (Some e, r1\<lparr>disk := fs1\<rparr>)
                  | (Inr p, fs1) \<Rightarrow>
                      let r2 = r1\<lparr>disk := fs1\<rparr> in
                      if i = AfterWrite then (Some KeyboardInterrupt, r2)
                      else (None, r2\<lparr>last_save_time := current_time,
                                       frame_count := frame_count r2 + 1\<rparr>)))
        else (None, r))"

text \<open>
  The loop over a script of ticks. \<open>Spinning\<close> says that the script ended with the loop
  still running; \<open>Raised\<close> that an exception left \<^verbatim>\<open>save_stream\<close>; \<open>Returned\<close> carries the
  pair the \<^verbatim>\<open>return\<close> statement builds. An interrupt at the head of the loop is outside
  the \<^verbatim>\<open>try\<close> statement and leaves \<^verbatim>\<open>save_stream\<close> as an exception; the two \<^verbatim>\<open>except\<close>
  clauses turn a \<^verbatim>\<open>KeyboardInterrupt\<close> or a \<^verbatim>\<open>CameraReadError\<close> of the \<^verbatim>\<open>try\<close> block into
  \<^verbatim>\<open>break\<close>.
\<close>

datatype outcome = Spinning | Raised error | Returned path nat

fun save_loop ::
  "path \<Rightarrow> real \<Rightarrow> string \<Rightarrow> tick list \<Rightarrow> recorder \<Rightarrow> outcome \<times> recorder" where
  "save_loop save_path interval filename_prefix [] r = (Spinning, r)"
| "save_loop save_path interval filename_prefix (t # ts) r =
     (if at_loop_head t then (Raised KeyboardInterrupt, r)
      else
        case try_body save_path interval filename_prefix t r of
          (None, r') \<Rightarrow> save_loop save_path interval filename_prefix ts r'
        | (Some e, r') \<Rightarrow>
            if e = KeyboardInterrupt then (Returned save_path (frame_count r'), r')
            else if e = CameraReadError then (Returned save_path (frame_count r'), r')
            else (Raised e, r'))"

text \<open>
  The statements of \<^verbatim>\<open>save_stream\<close> before the loop (the opening guard, \<^verbatim>\<open>Path(save_path)\<close>,
  \<^verbatim>\<open>mkdir\<close> and the two initial assignments) run under no handler either. A
  \<^verbatim>\<open>KeyboardInterrupt\<close> may arrive there before the guard has had an effect, after the
  guard and before \<^verbatim>\<open>mkdir\<close>, or after \<^verbatim>\<open>mkdir\<close> and before the loop.
\<close>

datatype startup = Undisturbed | InterruptInGuard | InterruptBeforeMkdir | InterruptBeforeLoop

definition save_stream ::
  "CameraFrameCapture \<Rightarrow> backend \<Rightarrow> filesystem \<Rightarrow> pathlike \<Rightarrow> real \<Rightarrow> string \<Rightarrow> startup \<Rightarrow>
     tick list \<Rightarrow> outcome \<times> recorder" where
  "save_stream s B fs save_path interval filename_prefix early ticks =
     (if early = InterruptInGuard
      then (Raised KeyboardInterrupt,
            \<lparr>sess = s, bk = B, disk = fs, last_save_time = 0, frame_count = 0\<rparr>)
      else
        case ensure_open s B of
          (Some e, s1, B1) \<Rightarrow>
            (Raised e, \<lparr>sess = s1, bk = B1, disk = fs, last_save_time = 0, frame_count = 0\<rparr>)
        | (None, s1, B1) \<Rightarrow>
            if early = InterruptBeforeMkdir
            then (Raised KeyboardInterrupt,
                  \<lparr>sess = s1, bk = B1, disk = fs, last_save_time = 0, frame_count = 0\<rparr>)
            else
              let save_path' = Path_of save_path;
                  fs1 = mkdir save_path' fs
              in if early = InterruptBeforeLoop
                 then (Raised KeyboardInterrupt,
                       \<lparr>sess = s1, bk = B1, disk = fs1, last_save_time = 0, frame_count = 0\<rparr>)
                 else save_loop save_path' interval filename_prefix ticks
                        \<lparr>sess = s1, bk = B1, disk = fs1, last_save_time = 0, frame_count = 0\<rparr>)"

section \<open>Cleanup statistics (dataset_tools/image_validator.py)\<close>



section \<open>Notions used in the statements\<close>

text \<open>The number a string of decimal digits stands for.\<close>

definition digit_val :: "char \<Rightarrow> nat" where
  "digit_val c = of_char c - 48"

definition decimal :: "string \<Rightarrow> nat" where
  "decimal s = foldl (\<lambda>a c. 10 * a + digit_val c) 0 s"

text \<open>The paths of the first \<open>m\<close> files of a recording run, in order.\<close>

definition written :: "path \<Rightarrow> string \<Rightarrow> nat \<Rightarrow> path list" where
  "written save_path filename_prefix m =
     map (\<lambda>k. joinpath save_path (filename filename_prefix k)) [0..<m]"

text \<open>The variables of \<^verbatim>\<open>save_stream\<close> when its loop is entered.\<close>

definition start :: "CameraFrameCapture \<Rightarrow> backend \<Rightarrow> filesystem \<Rightarrow> path \<Rightarrow> recorder" where
  "start s1 B1 fs d = \<lparr>sess = s1, bk = B1, disk = mkdir d fs, last_save_time = 0, frame_count = 0\<rparr>"

section \<open>Example devices\<close>

text \<open>
  Concrete backends on which the theorems below are instantiated: device 0 delivers two
  frames and then fails, reports 640 x 480 and no frame rate, and raises when released;
  device 1 is open but delivers nothing and reports \<open>-1\<close> for width and frame rate;
  no other source can be opened.
\<close>

definition demo_capture :: VideoCapture where
  "demo_capture =
     \<lparr>isOpened = True,
      feed = [Some [(1, 2, 3)], Some [(4, 5, 6)], None],
      props = (\<lambda>p. case p of CAP_PROP_FRAME_WIDTH \<Rightarrow> Finite 640
                        | CAP_PROP_FRAME_HEIGHT \<Rightarrow> Finite 480
                        | CAP_PROP_FPS \<Rightarrow> Finite 0),
      settable = [CAP_PROP_FRAME_WIDTH],
      release_raises = True\<rparr>"

definition minus_capture :: VideoCapture where
  "minus_capture =
     \<lparr>isOpened = True,
      feed = [],
      props = (\<lambda>p. case p of CAP_PROP_FRAME_WIDTH \<Rightarrow> Finite (- 1)
                        | CAP_PROP_FRAME_HEIGHT \<Rightarrow> Finite 480
                        | CAP_PROP_FPS \<Rightarrow> Finite (- 1)),
      settable = [],
      release_raises = False\<rparr>"

definition dead_capture :: VideoCapture where
  "dead_capture =
     \<lparr>isOpened = False, feed = [], props = (\<lambda>p. Finite 0), settable = [],
      release_raises = False\<rparr>"

definition demo_backend :: backend where
  "demo_backend =
     \<lparr>connect = (\<lambda>src. if src = Device 0 then demo_capture
                       else if src = Device 1 then minus_capture else dead_capture),
      released = []\<rparr>"

definition demo_config :: "int \<Rightarrow> CameraConfig" where
  "demo_config n =
     \<lparr>source = Device n, width = None, height = None, fps = None, convert_to_rgb = True\<rparr>"

definition demo_session :: "int \<Rightarrow> CameraFrameCapture" where
  "demo_session n = init (demo_config 0) (Some (demo_config n))"

definition demo_fs :: filesystem where
  "demo_fs = \<lparr>dirs = [], files = [], writable = (\<lambda>p. True)\<rparr>"

text \<open>
  A file system that refuses the second file of a run, and recording runs on device 0
  into the directory \<^verbatim>\<open>out\<close> with the prefix \<^verbatim>\<open>f\<close>, not interrupted before the loop.
\<close>

definition full_fs :: filesystem where
  "full_fs = \<lparr>dirs = [], files = [], writable = (\<lambda>p. p \<noteq> [''out'', ''f_000001.jpg''])\<rparr>"

definition demo_run :: "filesystem \<Rightarrow> real \<Rightarrow> tick list \<Rightarrow> outcome \<times> recorder" where
  "demo_run fs interval ticks =
     save_stream (demo_session 0) demo_backend fs (PyStr ''out'') interval ''f'' Undisturbed ticks"

text \<open>
  A device that delivers 1,000,001 frames before it fails, for runs that reach the file
  index 1,000,000.
\<close>

definition many :: nat where
  "many = 1000001"

definition long_capture :: VideoCapture where
  "long_capture =
     \<lparr>isOpened = True, feed = replicate many (Some [(1, 2, 3)]) @ [None],
      props = (\<lambda>p. Finite 0), settable = [], release_raises = False\<rparr>"

definition long_backend :: backend where
  "long_backend = \<lparr>connect = (\<lambda>src. long_capture), released = []\<rparr>"

section \<open>Theorems\<close>

lemmas demo_defs =
  demo_capture_def minus_capture_def dead_capture_def demo_backend_def demo_config_def
  demo_session_def demo_fs_def init_def

subsection \<open>Cleanup statistics\<close>



subsection \<open>Session lifecycle\<close>

lemma isOpened_set_if_given: "isOpened (set_if_given c p v) = isOpened c"
  by (simp add: set_if_given_def cap_set_def split: option.splits)

lemma feed_set_if_given: "feed (set_if_given c p v) = feed c"
  by (simp add: set_if_given_def cap_set_def split: option.splits)

lemma cap_read_set_if_given: "fst (cap_read (set_if_given c p v)) = fst (cap_read c)"
  by (simp add: cap_read_def feed_set_if_given isOpened_set_if_given split: list.splits)

lemma isOpened_cap_read: "isOpened (snd (cap_read c)) = isOpened c"
  by (simp add: cap_read_def split: list.splits)

lemma session_inv_open: "session_inv s \<Longrightarrow> session_inv (fst (snd (open_session s B)))"
  by (simp add: open_session_def session_inv_def Let_def isOpened_set_if_given release_def
           split: option.splits)

lemma session_inv_ensure_open: "session_inv s \<Longrightarrow> session_inv (fst (snd (ensure_open s B)))"
  by (simp add: ensure_open_def session_inv_open)

lemma session_inv_close: "session_inv (fst (snd (close s B)))"
  by (simp add: close_def session_inv_def suppress_Exception_def release_def split: option.splits)

lemma session_inv_read:
  assumes inv: "session_inv s"
  shows "session_inv (fst (snd (read s B)))"
proof -
  obtain e s1 B1 where eo: "ensure_open s B = (e, s1, B1)"
    by (cases "ensure_open s B") auto
  from session_inv_ensure_open [OF inv, of B] eo have inv1: "session_inv s1" by simp
  show ?thesis
  proof (cases e)
    case (Some x)
    with eo inv1 show ?thesis by (simp add: read_def)
  next
    case None
    show ?thesis
    proof (cases "cap s1")
      case no_cap: None
      with None eo inv1 show ?thesis by (simp add: read_def)
    next
      case (Some c)
      obtain fo c' where cr: "cap_read c = (fo, c')" by (cases "cap_read c") auto
      with isOpened_cap_read [of c] have "isOpened c' = isOpened c" by simp
      with None eo inv1 Some cr show ?thesis
        by (cases fo) (simp_all add: read_def session_inv_def)
    qed
  qed
qed

lemma session_inv_get_actual_properties:
  assumes inv: "session_inv s"
  shows "session_inv (fst (snd (get_actual_properties s B)))"
proof -
  obtain e s1 B1 where eo: "ensure_open s B = (e, s1, B1)"
    by (cases "ensure_open s B") auto
  from session_inv_ensure_open [OF inv, of B] eo have "session_inv s1" by simp
  with eo show ?thesis
    by (simp add: get_actual_properties_def split: option.splits sum.splits)
qed

lemma session_inv_iter_next:
  assumes inv: "session_inv s"
  shows "session_inv (fst (snd (snd (iter_next g s B))))"
proof (cases g)
  case Finished
  with inv show ?thesis by (simp add: iter_next_def)
next
  case Suspended
  obtain x s1 B1 where rd: "read s B = (x, s1, B1)" by (cases "read s B") auto
  with session_inv_read [OF inv, of B] have "session_inv s1" by simp
  with Suspended rd show ?thesis by (cases x) (simp_all add: iter_next_def)
next
  case Created
  obtain e s1 B1 where eo: "ensure_open s B = (e, s1, B1)"
    by (cases "ensure_open s B") auto
  from session_inv_ensure_open [OF inv, of B] eo have inv1: "session_inv s1" by simp
  obtain x s2 B2 where rd: "read s1 B1 = (x, s2, B2)" by (cases "read s1 B1") auto
  with session_inv_read [OF inv1, of B1] have "session_inv s2" by simp
  with Created eo rd inv1 show ?thesis
    by (cases e; cases x) (simp_all add: iter_next_def)
qed

text \<open>
  C7. Construction establishes, and open, close, read, the property query and a step of
  the stream iteration each preserve, the invariant that \<^verbatim>\<open>_is_open\<close> is true exactly when
  the capture handle is not \<^verbatim>\<open>None\<close> and opened successfully; this holds for the object
  as the call leaves it, whether the call returned or raised.
\<close>

theorem session_inv_preserved:
  "session_inv (init dflt cfg) \<and>
   (session_inv s \<longrightarrow>
      session_inv (fst (snd (open_session s B))) \<and>
      session_inv (fst (snd (close s B))) \<and>
      session_inv (fst (snd (read s B))) \<and>
      session_inv (fst (snd (get_actual_properties s B))) \<and>
      session_inv (fst (snd (snd (iter_next g s B)))))"
  by (simp add: session_inv_open session_inv_close session_inv_read
        session_inv_get_actual_properties session_inv_iter_next)
     (simp add: session_inv_def init_def)

theorem session_inv_preserved_witness:
  "session_inv (demo_session 0) \<and>
   session_inv (fst (snd (open_session (demo_session 0) demo_backend))) \<and>
   is_open (fst (snd (open_session (demo_session 0) demo_backend))) \<and>
   session_inv (fst (snd (read (demo_session 2) demo_backend))) \<and>
   \<not> is_open (fst (snd (read (demo_session 2) demo_backend)))"
proof -
  have inv: "session_inv (demo_session n)" for n
    using session_inv_preserved [of "demo_config 0" "Some (demo_config n)"]
    by (simp add: demo_session_def)
  have 1: "is_open (fst (snd (open_session (demo_session 0) demo_backend)))"
    by (simp add: demo_defs open_session_def set_if_given_def)
  have 2: "\<not> is_open (fst (snd (read (demo_session 2) demo_backend)))"
    by (simp add: demo_defs read_def ensure_open_def open_session_def release_def)
  from inv [of 0] inv [of 2] 1 2
    session_inv_preserved [of "demo_config 0" None "demo_session 0" demo_backend]
    session_inv_preserved [of "demo_config 0" None "demo_session 2" demo_backend]
  show ?thesis by blast
qed

text \<open>
  C8. close() never raises, whatever the state of the object: with no handle, with a
  handle, or with a handle whose release raises. It calls release on the handle when
  there is one, leaves \<^verbatim>\<open>_is_open\<close> false and \<^verbatim>\<open>_cap\<close> \<^verbatim>\<open>None\<close>, and a second close() changes
  nothing and releases nothing.
\<close>

theorem close_idempotent:
  "fst (close s B) = None \<and>
   is_open (fst (snd (close s B))) = False \<and>
   cap (fst (snd (close s B))) = None \<and>
   released (snd (snd (close s B))) =
     (case cap s of None \<Rightarrow> released B | Some c \<Rightarrow> c # released B) \<and>
   (case close s B of (r, s', B') \<Rightarrow> close s' B' = (None, s', B'))"
  by (simp add: close_def suppress_Exception_def release_def split: option.splits)

theorem close_idempotent_witness:
  "release demo_capture = Some Cv2Error \<and>
   fst (close (demo_session 0\<lparr>cap := Some demo_capture, is_open := True\<rparr>) demo_backend) = None \<and>
   released (snd (snd (close (demo_session 0\<lparr>cap := Some demo_capture, is_open := True\<rparr>)
                         demo_backend))) = [demo_capture] \<and>
   fst (close (demo_session 0) demo_backend) = None"
  using close_idempotent [of "demo_session 0\<lparr>cap := Some demo_capture, is_open := True\<rparr>" demo_backend]
        close_idempotent [of "demo_session 0" demo_backend]
  by (simp add: release_def demo_capture_def demo_backend_def)

subsection \<open>Reading\<close>

lemma read_closed_unfold:
  "\<not> is_open s \<Longrightarrow>
     read s B = (case open_session s B of
                   (Some e, s1, B1) \<Rightarrow> (Inl e, s1, B1)
                 | (None, s1, B1) \<Rightarrow> read s1 B1)"
  by (simp add: read_def ensure_open_def open_session_def Let_def release_def
           split: option.splits prod.splits)

lemma read_closed_unopenable:
  "\<not> is_open s \<Longrightarrow> \<not> isOpened (connect B (source (config s))) \<Longrightarrow>
     fst (read s B) = Inl CameraOpenError \<and> \<not> is_open (fst (snd (read s B)))"
  by (simp add: read_def ensure_open_def open_session_def Let_def release_def)

lemma read_closed_no_frame:
  assumes "\<not> is_open s" and "isOpened (connect B (source (config s)))"
    and "fst (cap_read (connect B (source (config s)))) = None"
  shows "fst (read s B) = Inl CameraReadError \<and> is_open (fst (snd (read s B)))"
proof -
  let ?c = "set_if_given (set_if_given (set_if_given (connect B (source (config s)))
              CAP_PROP_FRAME_WIDTH (map_option real_of_int (width (config s))))
              CAP_PROP_FRAME_HEIGHT (map_option real_of_int (height (config s))))
              CAP_PROP_FPS (fps (config s))"
  from assms have "fst (cap_read ?c) = None" by (simp add: cap_read_set_if_given)
  then obtain c' where "cap_read ?c = (None, c')" by (cases "cap_read ?c") auto
  with assms show ?thesis
    by (simp add: read_def ensure_open_def open_session_def Let_def)
qed

lemma read_open_no_frame:
  assumes "is_open s" and "cap s = Some c" and "fst (cap_read c) = None"
  shows "fst (read s B) = Inl CameraReadError"
proof -
  from assms obtain c' where "cap_read c = (None, c')" by (cases "cap_read c") auto
  with assms show ?thesis by (simp add: read_def ensure_open_def)
qed

text \<open>
  C5. read() on a closed session is open() followed by read() on the opened session.
  When the source cannot be opened it raises CameraOpenError and the session stays
  closed; when the source opens but the backend has no frame it raises CameraReadError
  (the session is then open); and on a session that is already open a backend without a
  frame gives CameraReadError as well.
\<close>

theorem read_opens_first:
  "(\<not> is_open s \<longrightarrow>
      read s B = (case open_session s B of
                    (Some e, s1, B1) \<Rightarrow> (Inl e, s1, B1)
                  | (None, s1, B1) \<Rightarrow> read s1 B1)) \<and>
   (\<not> is_open s \<and> \<not> isOpened (connect B (source (config s))) \<longrightarrow>
      fst (read s B) = Inl CameraOpenError \<and> \<not> is_open (fst (snd (read s B)))) \<and>
   (\<not> is_open s \<and> isOpened (connect B (source (config s))) \<and>
      fst (cap_read (connect B (source (config s)))) = None \<longrightarrow>
      fst (read s B) = Inl CameraReadError \<and> is_open (fst (snd (read s B)))) \<and>
   (is_open s \<and> cap s = Some c \<and> fst (cap_read c) = None \<longrightarrow>
      fst (read s B) = Inl CameraReadError)"
  using read_closed_unfold [of s B] read_closed_unopenable [of s B]
        read_closed_no_frame [of s B] read_open_no_frame [of s c B]
  by blast

theorem read_opens_first_witness:
  "fst (read (demo_session 2) demo_backend) = Inl CameraOpenError \<and>
   fst (read (demo_session 1) demo_backend) = Inl CameraReadError \<and>
   is_open (fst (snd (read (demo_session 1) demo_backend)))"
proof -
  have 1: "\<not> is_open (demo_session 2)" "\<not> is_open (demo_session 1)"
    by (simp_all add: demo_defs)
  have 2: "\<not> isOpened (connect demo_backend (source (config (demo_session 2))))"
    by (simp add: demo_defs)
  have 3: "isOpened (connect demo_backend (source (config (demo_session 1))))"
    "fst (cap_read (connect demo_backend (source (config (demo_session 1))))) = None"
    by (simp_all add: demo_defs cap_read_def)
  from read_opens_first [of "demo_session 2" demo_backend] 1 2
  have a: "fst (read (demo_session 2) demo_backend) = Inl CameraOpenError" by blast
  from read_opens_first [of "demo_session 1" demo_backend] 1 3
  have b: "fst (read (demo_session 1) demo_backend) = Inl CameraReadError \<and>
    is_open (fst (snd (read (demo_session 1) demo_backend)))" by blast
  from a b show ?thesis by simp
qed

subsection \<open>Saving one frame\<close>

text \<open>
  C10. save_frame called with the path as a plain string raises AttributeError (not
  FrameSaveError) and leaves the file system as it was: no directory is created and no
  file is written. Any call that ends otherwise than by AttributeError was given a Path
  object.
\<close>

theorem save_frame_str_path:
  "save_frame s frame (PyStr p) fs = (Inl AttributeError, fs) \<and>
   (fst (save_frame s frame x fs) \<noteq> Inl AttributeError \<longrightarrow> (\<exists>q. x = PyPath q))"
  by (cases x) (simp_all add: save_frame_def)

theorem save_frame_str_path_witness:
  "save_frame (demo_session 0) [(1, 2, 3)] (PyStr ''out/a.jpg'') demo_fs
     = (Inl AttributeError, demo_fs) \<and>
   fst (save_frame (demo_session 0) [(1, 2, 3)] (PyPath [''out'', ''a.jpg'']) demo_fs)
     = Inr [''out'', ''a.jpg'']"
proof -
  have "fst (save_frame (demo_session 0) [(1, 2, 3)] (PyPath [''out'', ''a.jpg'']) demo_fs)
     = Inr [''out'', ''a.jpg'']"
    by (simp add: save_frame_def demo_defs mkdir_def Let_def)
  with save_frame_str_path [of "demo_session 0" "[(1, 2, 3)]" "''out/a.jpg''" demo_fs
         "PyPath [''out'', ''a.jpg'']"]
  show ?thesis by simp
qed

subsection \<open>Property query\<close>

lemma ensure_open_is_open:
  "ensure_open s B = (None, s1, B1) \<Longrightarrow> is_open s1"
  by (auto simp add: ensure_open_def open_session_def Let_def release_def split: if_splits option.splits)

text \<open>
  C1 (as amended). get_actual_properties opens the session when it is not open, and raises
  what open() raised when that fails. Otherwise, when the backend reports finite values,
  it returns them: width and height truncated towards zero to integers, the frame rate
  as the float it is. A reported 0 (property unavailable) comes back as 0 and 0.0. A
  negative finite report is not replaced: a width or height of -1 or below comes back
  negative, and the frame rate comes back unchanged.
\<close>

theorem get_actual_properties_reports:
  "(ensure_open s B = (None, s1, B1) \<and> cap s1 = Some c \<and>
    cap_get c CAP_PROP_FRAME_WIDTH = Finite w \<and>
    cap_get c CAP_PROP_FRAME_HEIGHT = Finite h \<and>
    cap_get c CAP_PROP_FPS = Finite f \<longrightarrow>
      get_actual_properties s B = (Inr (trunc w, trunc h, Finite f), s1, B1) \<and>
      is_open s1 \<and>
      (w = 0 \<longrightarrow> trunc w = 0) \<and> (h = 0 \<longrightarrow> trunc h = 0) \<and>
      (w \<le> - 1 \<longrightarrow> trunc w < 0) \<and> (h \<le> - 1 \<longrightarrow> trunc h < 0)) \<and>
   (ensure_open s B = (Some e, s1, B1) \<longrightarrow> get_actual_properties s B = (Inl e, s1, B1))"
proof -
  have neg: "x \<le> - 1 \<Longrightarrow> trunc x < 0" for x
  proof -
    assume "x \<le> - 1"
    then have "1 \<le> - x" and "\<not> 0 \<le> x" by simp_all
    then have "1 \<le> \<lfloor>- x\<rfloor>" by (simp add: le_floor_iff)
    with \<open>\<not> 0 \<le> x\<close> show ?thesis by (simp add: trunc_def)
  qed
  have z: "trunc 0 = 0" by (simp add: trunc_def)
  have main: "get_actual_properties s B = (Inr (trunc w, trunc h, Finite f), s1, B1)"
    if "ensure_open s B = (None, s1, B1)" "cap s1 = Some c"
       "cap_get c CAP_PROP_FRAME_WIDTH = Finite w"
       "cap_get c CAP_PROP_FRAME_HEIGHT = Finite h"
       "cap_get c CAP_PROP_FPS = Finite f"
    using that z by (simp add: get_actual_properties_def int_or_0_def float_or_0_def)
  have err: "get_actual_properties s B = (Inl e, s1, B1)" if "ensure_open s B = (Some e, s1, B1)"
    using that by (simp add: get_actual_properties_def)
  from main err neg z ensure_open_is_open [of s B s1 B1] show ?thesis by blast
qed

theorem get_actual_properties_reports_witness:
  "get_actual_properties (demo_session 0) demo_backend
     = (Inr (640, 480, Finite 0), fst (snd (ensure_open (demo_session 0) demo_backend)), demo_backend) \<and>
   fst (get_actual_properties (demo_session 2) demo_backend) = Inl CameraOpenError"
proof -
  let ?c = "demo_capture\<lparr>props := (props demo_capture)(CAP_PROP_FRAME_WIDTH := Finite 640)\<rparr>"
  let ?s1 = "demo_session 0\<lparr>cap := Some demo_capture, is_open := True\<rparr>"
  have eo: "ensure_open (demo_session 0) demo_backend = (None, ?s1, demo_backend)"
    by (simp add: demo_defs ensure_open_def open_session_def set_if_given_def)
  have c: "cap ?s1 = Some demo_capture" by simp
  have g: "cap_get demo_capture CAP_PROP_FRAME_WIDTH = Finite 640"
    "cap_get demo_capture CAP_PROP_FRAME_HEIGHT = Finite 480"
    "cap_get demo_capture CAP_PROP_FPS = Finite 0"
    by (simp_all add: cap_get_def demo_capture_def)
  have t: "trunc 640 = 640" "trunc 480 = 480" by (simp_all add: trunc_def)
  have eo2: "ensure_open (demo_session 2) demo_backend = (Some CameraOpenError, demo_session 2, demo_backend\<lparr>released := [dead_capture]\<rparr>)"
    by (simp add: demo_defs ensure_open_def open_session_def release_def)
  from get_actual_properties_reports [of "demo_session 0" demo_backend ?s1 demo_backend demo_capture 640 480 0]
    eo c g t
  have a: "get_actual_properties (demo_session 0) demo_backend = (Inr (640, 480, Finite 0), ?s1, demo_backend)"
    by simp
  from get_actual_properties_reports [of "demo_session 2" demo_backend _ _ _ _ _ _ CameraOpenError] eo2
  have b: "fst (get_actual_properties (demo_session 2) demo_backend) = Inl CameraOpenError"
    by simp
  from a b eo show ?thesis by simp
qed

text \<open>
  The claim as first stated (a negative backend value is replaced by 0 and 0.0) fails: a
  backend that reports -1 for width and frame rate gets (-1, 480, -1.0) back.
\<close>

theorem get_actual_properties_counterexample:
  "cap_get (connect demo_backend (Device 1)) CAP_PROP_FRAME_WIDTH = Finite (- 1) \<and>
   cap_get (connect demo_backend (Device 1)) CAP_PROP_FPS = Finite (- 1) \<and>
   fst (get_actual_properties (demo_session 1) demo_backend) = Inr (- 1, 480, Finite (- 1)) \<and>
   fst (get_actual_properties (demo_session 1) demo_backend) \<noteq> Inr (0, 480, Finite 0)"
  by (simp add: get_actual_properties_def demo_defs ensure_open_def open_session_def
        set_if_given_def cap_get_def int_or_0_def float_or_0_def trunc_def)

subsection \<open>File names\<close>

lemma digit_val_digit_char: "d < 10 \<Longrightarrow> digit_val (digit_char d) = d"
proof -
  assume "d < 10"
  then have "d = 0 \<or> d = 1 \<or> d = 2 \<or> d = 3 \<or> d = 4 \<or> d = 5 \<or> d = 6 \<or> d = 7 \<or> d = 8 \<or> d = 9"
    by arith
  then show ?thesis
    by (elim disjE) (simp_all add: digit_val_def digit_char_def)
qed

lemma decimal_snoc: "decimal (s @ [c]) = 10 * decimal s + digit_val c"
  by (simp add: decimal_def)

lemma decimal_digits: "decimal (digits n) = n"
proof (induction n rule: digits.induct)
  case (1 n)
  show ?case
  proof (cases "n < 10")
    case True
    then show ?thesis
      by (subst digits.simps) (simp add: decimal_def digit_val_digit_char)
  next
    case False
    with "1.IH" have "decimal (digits (n div 10)) = n div 10" by simp
    with False show ?thesis
      by (subst digits.simps) (simp add: decimal_snoc digit_val_digit_char)
  qed
qed

lemma decimal_zeros: "decimal (replicate k CHR ''0'' @ s) = decimal s"
proof -
  have "foldl (\<lambda>a c. 10 * a + digit_val c) 0 (replicate k CHR ''0'') = 0"
    by (induction k) (simp_all add: digit_val_def)
  then show ?thesis by (simp add: decimal_def)
qed

lemma decimal_fmt_06d: "decimal (fmt_06d n) = n"
  by (simp add: fmt_06d_def decimal_zeros decimal_digits)

lemma filename_inj: "filename p a = filename p b \<Longrightarrow> a = b"
proof -
  assume "filename p a = filename p b"
  then have "fmt_06d a = fmt_06d b" by (simp add: filename_def)
  then have "decimal (fmt_06d a) = decimal (fmt_06d b)" by simp
  then show ?thesis by (simp add: decimal_fmt_06d)
qed

lemma distinct_filenames: "distinct (map (filename p) [0..<m])"
  by (simp add: distinct_map inj_on_def) (blast dest: filename_inj)

lemma length_digits: "k < 10 ^ m \<Longrightarrow> 0 < m \<Longrightarrow> length (digits k) \<le> m"
proof (induction m arbitrary: k)
  case 0
  then show ?case by simp
next
  case (Suc m)
  show ?case
  proof (cases "k < 10")
    case True
    then show ?thesis by (subst digits.simps) simp
  next
    case False
    with Suc.prems have "0 < m" by (cases m) simp_all
    moreover from Suc.prems have "k div 10 < 10 ^ m" by (simp add: less_mult_imp_div_less mult.commute)
    ultimately have "length (digits (k div 10)) \<le> m" by (rule Suc.IH [rotated])
    with False show ?thesis by (subst digits.simps) simp
  qed
qed

lemma length_fmt_06d: "k < 1000000 \<Longrightarrow> length (fmt_06d k) = 6"
proof -
  assume "k < 1000000"
  then have "k < 10 ^ 6" by simp
  then have "length (digits k) \<le> 6" by (rule length_digits) simp
  then show ?thesis by (simp add: fmt_06d_def)
qed

subsection \<open>The recording loop\<close>

lemma save_loop_append:
  "save_loop d iv pre (ts1 @ ts2) r =
     (case save_loop d iv pre ts1 r of
        (Spinning, r1) \<Rightarrow> save_loop d iv pre ts2 r1
      | (Raised e, r1) \<Rightarrow> (Raised e, r1)
      | (Returned p n, r1) \<Rightarrow> (Returned p n, r1))"
  by (induction ts1 arbitrary: r) (simp_all split: prod.splits option.splits)

lemma try_body_None:
  "try_body d iv pre t r = (None, r') \<Longrightarrow>
     r' = r \<or>
     (frame_count r' = Suc (frame_count r) \<and>
      map fst (files (disk r')) = map fst (files (disk r)) @ [joinpath d (filename pre (frame_count r))])"
  by (cases t)
     (auto simp add: try_body_def Let_def save_frame_def mkdir_def
           split: if_splits prod.splits sum.splits)

lemma try_body_Some:
  "try_body d iv pre t r = (Some e, r') \<Longrightarrow>
     frame_count r' = frame_count r \<and>
     (files (disk r') = files (disk r) \<or>
      (e = KeyboardInterrupt \<and> (\<exists>now. t = Tick now AfterWrite) \<and>
       map fst (files (disk r')) = map fst (files (disk r)) @ [joinpath d (filename pre (frame_count r))]))"
  by (cases t)
     (auto simp add: try_body_def Let_def save_frame_def mkdir_def
           split: if_splits prod.splits sum.splits)

lemma written_Suc:
  "written d pre (Suc n) = written d pre n @ [joinpath d (filename pre n)]"
  by (simp add: written_def)

lemma save_loop_files:
  assumes "map fst (files (disk r)) = F0 @ written d pre (frame_count r)"
    and "save_loop d iv pre ts r = (out, r')"
  shows "(out = Spinning \<or> (\<exists>e. out = Raised e) \<or> out = Returned d (frame_count r')) \<and>
         (map fst (files (disk r')) = F0 @ written d pre (frame_count r') \<or>
          (map fst (files (disk r')) = F0 @ written d pre (Suc (frame_count r')) \<and>
           out = Returned d (frame_count r') \<and> (\<exists>now. Tick now AfterWrite \<in> set ts)))"
  using assms
proof (induction ts arbitrary: r)
  case Nil
  then show ?case by simp
next
  case (Cons t ts)
  obtain e r1 where tb: "try_body d iv pre t r = (e, r1)"
    by (cases "try_body d iv pre t r") auto
  show ?case
  proof (cases "at_loop_head t")
    case True
    with Cons.prems show ?thesis by auto
  next
    case inside: False
  show ?thesis
  proof (cases e)
    case None
    from try_body_None [OF tb [unfolded None]] Cons.prems(1)
    have inv1: "map fst (files (disk r1)) = F0 @ written d pre (frame_count r1)"
      by (auto simp add: written_Suc)
    from Cons.prems(2) tb None inside have "save_loop d iv pre ts r1 = (out, r')" by simp
    from Cons.IH [OF inv1 this] show ?thesis by auto
  next
    case (Some x)
    from try_body_Some [OF tb [unfolded Some]] Cons.prems(1)
    have fc: "frame_count r1 = frame_count r"
      and fl: "map fst (files (disk r1)) = F0 @ written d pre (frame_count r1) \<or>
        (x = KeyboardInterrupt \<and> (\<exists>now. t = Tick now AfterWrite) \<and>
         map fst (files (disk r1)) = F0 @ written d pre (Suc (frame_count r1)))"
      by (auto simp add: written_Suc)
    from Cons.prems(2) tb Some inside
    have r': "r' = r1"
      and out: "out = (if x = KeyboardInterrupt \<or> x = CameraReadError
                       then Returned d (frame_count r1) else Raised x)"
      by (auto split: if_splits)
    from out fl r' show ?thesis by (auto split: if_splits)
  qed
  qed
qed

lemma save_loop_Returned_cause:
  "save_loop d iv pre ts r = (Returned p n, r') \<Longrightarrow>
     \<exists>ts1 t ts2 r1. ts = ts1 @ t # ts2 \<and> save_loop d iv pre ts1 r = (Spinning, r1) \<and>
       (fst (try_body d iv pre t r1) = Some KeyboardInterrupt \<or>
        fst (try_body d iv pre t r1) = Some CameraReadError)"
proof (induction ts arbitrary: r)
  case Nil
  then show ?case by simp
next
  case (Cons t ts)
  obtain e r1 where tb: "try_body d iv pre t r = (e, r1)"
    by (cases "try_body d iv pre t r") auto
  from Cons.prems have inside: "\<not> at_loop_head t"
    by (auto split: if_splits)
  show ?case
  proof (cases e)
    case None
    with Cons.prems tb inside have "save_loop d iv pre ts r1 = (Returned p n, r')" by simp
    from Cons.IH [OF this] obtain ts1 t' ts2 r2 where
      "ts = ts1 @ t' # ts2" "save_loop d iv pre ts1 r1 = (Spinning, r2)"
      "fst (try_body d iv pre t' r2) = Some KeyboardInterrupt \<or>
       fst (try_body d iv pre t' r2) = Some CameraReadError"
      by blast
    with tb None inside have "t # ts = (t # ts1) @ t' # ts2 \<and>
      save_loop d iv pre (t # ts1) r = (Spinning, r2) \<and>
      (fst (try_body d iv pre t' r2) = Some KeyboardInterrupt \<or>
       fst (try_body d iv pre t' r2) = Some CameraReadError)"
      by simp
    then show ?thesis by blast
  next
    case (Some x)
    with Cons.prems tb inside have "x = KeyboardInterrupt \<or> x = CameraReadError"
      by (simp split: if_splits)
    with tb Some have "t # ts = [] @ t # ts \<and>
      save_loop d iv pre [] r = (Spinning, r) \<and>
      (fst (try_body d iv pre t r) = Some KeyboardInterrupt \<or>
       fst (try_body d iv pre t r) = Some CameraReadError)"
      by auto
    then show ?thesis by blast
  qed
qed

lemma save_stream_opened:
  "ensure_open s B = (None, s1, B1) \<Longrightarrow>
     save_stream s B fs save_path iv pre Undisturbed ts =
       save_loop (Path_of save_path) iv pre ts (start s1 B1 fs (Path_of save_path))"
  by (simp add: save_stream_def start_def Let_def)

text \<open>
  Either the loop is entered, or \<^verbatim>\<open>save_stream\<close> raises before it, whatever the ticks,
  with no file written.
\<close>

lemma save_stream_cases:
  "(\<exists>s1 B1. early = Undisturbed \<and> ensure_open s B = (None, s1, B1)) \<or>
   (\<exists>e r. (\<forall>ts. save_stream s B fs save_path iv pre early ts = (Raised e, r)) \<and>
          files (disk r) = files fs \<and> frame_count r = 0)"
proof -
  obtain x s1 B1 where eo: "ensure_open s B = (x, s1, B1)"
    by (cases "ensure_open s B") auto
  show ?thesis
  proof (cases "early = Undisturbed \<and> x = None")
    case True
    with eo show ?thesis by simp
  next
    case False
    with eo have "\<exists>e r. (\<forall>ts. save_stream s B fs save_path iv pre early ts = (Raised e, r)) \<and>
          files (disk r) = files fs \<and> frame_count r = 0"
      by (cases early; cases x) (simp_all add: save_stream_def Let_def mkdir_def)
    then show ?thesis by blast
  qed
qed

lemma save_stream_append:
  "save_stream s B fs save_path iv pre early (ts1 @ ts2) =
     (case save_stream s B fs save_path iv pre early ts1 of
        (Spinning, r1) \<Rightarrow> save_loop (Path_of save_path) iv pre ts2 r1
      | (Raised e, r1) \<Rightarrow> (Raised e, r1)
      | (Returned p n, r1) \<Rightarrow> (Returned p n, r1))"
  using save_stream_cases [of early s B fs save_path iv pre]
proof (elim disjE exE conjE)
  fix s1 B1
  assume "early = Undisturbed" "ensure_open s B = (None, s1, B1)"
  then show ?thesis by (simp add: save_stream_opened save_loop_append)
next
  fix e r
  assume "\<forall>ts. save_stream s B fs save_path iv pre early ts = (Raised e, r)"
  then show ?thesis by simp
qed

lemma save_stream_files:
  assumes "save_stream s B fs save_path iv pre early ts = (out, r)"
  shows "(out = Spinning \<or> (\<exists>e. out = Raised e) \<or> out = Returned (Path_of save_path) (frame_count r)) \<and>
         (map fst (files (disk r)) = map fst (files fs) @ written (Path_of save_path) pre (frame_count r) \<or>
          (map fst (files (disk r)) = map fst (files fs) @ written (Path_of save_path) pre (Suc (frame_count r)) \<and>
           out = Returned (Path_of save_path) (frame_count r) \<and> (\<exists>now. Tick now AfterWrite \<in> set ts)))"
  using save_stream_cases [of early s B fs save_path iv pre]
proof (elim disjE exE conjE)
  fix s1 B1
  assume eo: "early = Undisturbed" "ensure_open s B = (None, s1, B1)"
  have "map fst (files (disk (start s1 B1 fs (Path_of save_path)))) =
    map fst (files fs) @ written (Path_of save_path) pre (frame_count (start s1 B1 fs (Path_of save_path)))"
    by (simp add: start_def mkdir_def written_def)
  moreover from assms eo
  have "save_loop (Path_of save_path) iv pre ts (start s1 B1 fs (Path_of save_path)) = (out, r)"
    by (simp add: save_stream_opened)
  ultimately show ?thesis by (rule save_loop_files)
next
  fix e r0
  assume "\<forall>ts. save_stream s B fs save_path iv pre early ts = (Raised e, r0)"
    and "files (disk r0) = files fs" and "frame_count r0 = 0"
  with assms show ?thesis by (auto simp add: written_def)
qed

text \<open>Only a run that entered the loop returns a pair.\<close>

lemma save_stream_Returned_cause:
  assumes "save_stream s B fs save_path iv pre early ts = (Returned d n, r')"
  shows "\<exists>us t vs r0. ts = us @ t # vs \<and>
           save_stream s B fs save_path iv pre early us = (Spinning, r0) \<and>
           (fst (try_body (Path_of save_path) iv pre t r0) = Some KeyboardInterrupt \<or>
            fst (try_body (Path_of save_path) iv pre t r0) = Some CameraReadError)"
  using save_stream_cases [of early s B fs save_path iv pre]
proof (elim disjE exE conjE)
  fix s1 B1
  assume eo: "early = Undisturbed" "ensure_open s B = (None, s1, B1)"
  with assms have "save_loop (Path_of save_path) iv pre ts (start s1 B1 fs (Path_of save_path))
      = (Returned d n, r')"
    by (simp add: save_stream_opened)
  from save_loop_Returned_cause [OF this] eo show ?thesis
    by (simp add: save_stream_opened)
next
  fix e r0
  assume "\<forall>ts. save_stream s B fs save_path iv pre early ts = (Raised e, r0)"
  with assms show ?thesis by simp
qed

lemma save_loop_steady:
  assumes "is_open (sess r)" and "cap (sess r) = Some c" and "isOpened c"
    and "feed c = replicate n (Some f) @ rest"
    and "\<forall>p. writable (disk r) p" and "last_save_time r \<le> t"
  shows "\<exists>r'. save_loop d 0 pre (replicate n (Tick t NoInterrupt)) r = (Spinning, r') \<and>
              frame_count r' = frame_count r + n"
  using assms
proof (induction n arbitrary: r c)
  case 0
  then show ?case by simp
next
  case (Suc n)
  let ?c' = "c\<lparr>feed := replicate n (Some f) @ rest\<rparr>"
  obtain r1 where tb: "try_body d 0 pre (Tick t NoInterrupt) r = (None, r1)"
    and s1: "sess r1 = (sess r)\<lparr>cap := Some ?c'\<rparr>"
    and w1: "writable (disk r1) = writable (disk r)"
    and l1: "last_save_time r1 = t"
    and f1: "frame_count r1 = Suc (frame_count r)"
    using Suc.prems
    by (simp add: try_body_def read_def ensure_open_def cap_read_def save_frame_def mkdir_def Let_def)
  from s1 Suc.prems have "is_open (sess r1)" "cap (sess r1) = Some ?c'" "isOpened ?c'"
    "feed ?c' = replicate n (Some f) @ rest"
    by simp_all
  moreover from w1 Suc.prems have "\<forall>p. writable (disk r1) p" by simp
  moreover from l1 have "last_save_time r1 \<le> t" by simp
  ultimately obtain r' where
    "save_loop d 0 pre (replicate n (Tick t NoInterrupt)) r1 = (Spinning, r')"
    "frame_count r' = frame_count r1 + n"
    using Suc.IH by blast
  with tb f1 show ?case by simp
qed

text \<open>
  C6 (as amended). In one run of save_stream the files written are exactly
  prefix_<i:06d>.jpg for i = 0, 1, ..., m-1, in this order and under the target directory:
  no index is skipped or used twice and the names are pairwise distinct. The index is
  zero-padded to a minimum width of six digits: every index has at least six digits, and
  exactly six while it is below 1,000,000. In a run in which no cancellation arrives
  between a write and the increment of the counter, the returned count is m, the number
  of files written.
\<close>

theorem filenames_sequential:
  assumes "save_stream s B fs save_path interval pre early ts = (out, r)"
  shows "\<exists>m. map fst (files (disk r)) =
               map fst (files fs) @ map (\<lambda>k. joinpath (Path_of save_path) (filename pre k)) [0..<m] \<and>
             distinct (map (filename pre) [0..<m]) \<and>
             (\<forall>k<m. 6 \<le> length (fmt_06d k) \<and> (k < 1000000 \<longrightarrow> length (fmt_06d k) = 6)) \<and>
             (\<forall>d n. out = Returned d n \<longrightarrow>
                d = Path_of save_path \<and>
                ((\<forall>now. Tick now AfterWrite \<notin> set ts) \<longrightarrow> n = m))"
proof -
  have width: "6 \<le> length (fmt_06d k)" for k
    by (simp add: fmt_06d_def)
  from save_stream_files [OF assms]
  consider (counted) "map fst (files (disk r)) =
        map fst (files fs) @ written (Path_of save_path) pre (frame_count r)"
      "out = Spinning \<or> (\<exists>e. out = Raised e) \<or> out = Returned (Path_of save_path) (frame_count r)"
    | (uncounted) "map fst (files (disk r)) =
        map fst (files fs) @ written (Path_of save_path) pre (Suc (frame_count r))"
      "out = Returned (Path_of save_path) (frame_count r)" "\<exists>now. Tick now AfterWrite \<in> set ts"
    by blast
  then show ?thesis
  proof cases
    case counted
    then have "map fst (files (disk r)) =
               map fst (files fs) @ map (\<lambda>k. joinpath (Path_of save_path) (filename pre k)) [0..<frame_count r] \<and>
             distinct (map (filename pre) [0..<frame_count r]) \<and>
             (\<forall>k<frame_count r. 6 \<le> length (fmt_06d k) \<and> (k < 1000000 \<longrightarrow> length (fmt_06d k) = 6)) \<and>
             (\<forall>d n. out = Returned d n \<longrightarrow>
                d = Path_of save_path \<and>
                ((\<forall>now. Tick now AfterWrite \<notin> set ts) \<longrightarrow> n = frame_count r))"
      using distinct_filenames [of pre "frame_count r"] length_fmt_06d width
      by (auto simp add: written_def)
    then show ?thesis by blast
  next
    case uncounted
    then have "map fst (files (disk r)) =
               map fst (files fs) @ map (\<lambda>k. joinpath (Path_of save_path) (filename pre k)) [0..<Suc (frame_count r)] \<and>
             distinct (map (filename pre) [0..<Suc (frame_count r)]) \<and>
             (\<forall>k<Suc (frame_count r). 6 \<le> length (fmt_06d k) \<and> (k < 1000000 \<longrightarrow> length (fmt_06d k) = 6)) \<and>
             (\<forall>d n. out = Returned d n \<longrightarrow>
                d = Path_of save_path \<and>
                ((\<forall>now. Tick now AfterWrite \<notin> set ts) \<longrightarrow> n = Suc (frame_count r)))"
      using distinct_filenames [of pre "Suc (frame_count r)"] length_fmt_06d width
      by (auto simp add: written_def)
    then show ?thesis by blast
  qed
qed

theorem filenames_sequential_witness:
  "fst (demo_run demo_fs 0 [Tick 5 NoInterrupt, Tick 6 NoInterrupt, Tick 7 NoInterrupt])
     = Returned [''out''] 2 \<and>
   map fst (files (disk (snd (demo_run demo_fs 0
       [Tick 5 NoInterrupt, Tick 6 NoInterrupt, Tick 7 NoInterrupt]))))
     = map (\<lambda>k. joinpath [''out''] (filename ''f'' k)) [0..<2]"
proof -
  let ?ts = "[Tick 5 NoInterrupt, Tick 6 NoInterrupt, Tick 7 NoInterrupt]"
  let ?run = "demo_run demo_fs 0 ?ts"
  have out: "fst ?run = Returned [''out''] 2" by code_simp
  have "save_stream (demo_session 0) demo_backend demo_fs (PyStr ''out'') 0 ''f'' Undisturbed ?ts
          = (fst ?run, snd ?run)"
    by (simp add: demo_run_def)
  from filenames_sequential [OF this] obtain m where
    m: "map fst (files (disk (snd ?run))) =
          map fst (files demo_fs) @ map (\<lambda>k. joinpath (Path_of (PyStr ''out'')) (filename ''f'' k)) [0..<m]"
    and n: "\<forall>d n. fst ?run = Returned d n \<longrightarrow> d = Path_of (PyStr ''out'') \<and>
                ((\<forall>now. Tick now AfterWrite \<notin> set ?ts) \<longrightarrow> n = m)"
    by blast
  from n out have "m = 2" by auto
  with m out show ?thesis by (simp add: demo_fs_def)
qed

text \<open>
  The claim as first stated (six-digit indices) fails in a run of 1,000,001 passes on the
  long device with interval 0: the file after f_999999.jpg is f_1000000.jpg, with a
  seven-digit index.
\<close>

theorem filenames_sequential_counterexample:
  "[''out'', ''f_1000000.jpg''] \<in>
     set (map fst (files (disk (snd (save_stream (init (demo_config 0) None) long_backend demo_fs
        (PyStr ''out'') 0 ''f'' Undisturbed (replicate many (Tick 5 NoInterrupt)))))))"
proof -
  let ?s = "init (demo_config 0) None"
  let ?s1 = "?s\<lparr>cap := Some long_capture, is_open := True\<rparr>"
  let ?ts = "replicate many (Tick 5 NoInterrupt)"
  let ?r = "start ?s1 long_backend demo_fs [''out'']"
  have io: "isOpened long_capture"
    and fd: "feed long_capture = replicate many (Some [(1, 2, 3)]) @ [None]"
    unfolding long_capture_def by (simp_all only: VideoCapture.select_convs)
  have eo: "ensure_open ?s long_backend = (None, ?s1, long_backend)"
    using io
    by (simp add: init_def demo_config_def long_backend_def ensure_open_def open_session_def
          set_if_given_def)
  have "is_open (sess ?r)" "cap (sess ?r) = Some long_capture"
    "\<forall>p. writable (disk ?r) p" "last_save_time ?r \<le> 5"
    by (simp_all add: start_def mkdir_def demo_fs_def)
  from save_loop_steady [OF this(1,2) io fd this(3,4), of "[''out'']" "''f''"]
  obtain r' where run: "save_loop [''out''] 0 ''f'' ?ts ?r = (Spinning, r')"
    and cnt: "frame_count r' = frame_count ?r + many"
    by blast
  have p: "Path_of (PyStr ''out'') = [''out'']" by simp
  from run
  have ss: "save_stream ?s long_backend demo_fs (PyStr ''out'') 0 ''f'' Undisturbed ?ts = (Spinning, r')"
    unfolding save_stream_opened [OF eo] p .
  from save_stream_files [OF ss]
  have "map fst (files (disk r')) = map fst (files demo_fs) @ written [''out''] ''f'' (frame_count r')"
    unfolding p by simp
  moreover have "frame_count r' = many" using cnt by (simp add: start_def)
  moreover have "files demo_fs = []" by (simp add: demo_fs_def)
  ultimately have names: "map fst (files (disk r')) = written [''out''] ''f'' many"
    by (simp only: list.map append_Nil)
  have fn: "[''out'', ''f_1000000.jpg''] = joinpath [''out''] (filename ''f'' 1000000)"
    by (simp add: joinpath_def filename_def fmt_06d_def digits.simps digit_char_def)
  have "(1000000::nat) \<in> set [0..<many]"
    by (simp only: set_upt) (simp add: many_def)
  then have "joinpath [''out''] (filename ''f'' 1000000) \<in> set (written [''out''] ''f'' many)"
    unfolding written_def set_map by (rule imageI)
  with names fn ss show ?thesis by (simp only: snd_conv)
qed

subsection \<open>How the loop ends\<close>

lemma try_body_BeforeRead:
  "try_body d iv pre (Tick now BeforeRead) r = (Some KeyboardInterrupt, r)"
  by (simp add: try_body_def)

lemma try_body_closed_gate:
  "\<not> iv \<le> now - last_save_time r \<Longrightarrow> i \<noteq> BeforeRead \<Longrightarrow>
     try_body d iv pre (Tick now i) r = (None, r)"
  by (simp add: try_body_def)

lemma try_body_read_raises:
  assumes "iv \<le> now - last_save_time r" and "i \<noteq> BeforeRead"
    and "fst (read (sess r) (bk r)) = Inl e"
  shows "fst (try_body d iv pre (Tick now i) r) = Some e"
proof -
  from assms(3) obtain s1 B1 where "read (sess r) (bk r) = (Inl e, s1, B1)"
    by (cases "read (sess r) (bk r)") auto
  with assms(1,2) show ?thesis by (simp add: try_body_def)
qed

lemma try_body_AfterRead:
  assumes "iv \<le> now - last_save_time r" and "fst (read (sess r) (bk r)) = Inr f"
  shows "fst (try_body d iv pre (Tick now AfterRead) r) = Some KeyboardInterrupt"
proof -
  from assms(2) obtain s1 B1 where "read (sess r) (bk r) = (Inr f, s1, B1)"
    by (cases "read (sess r) (bk r)") auto
  with assms(1) show ?thesis by (simp add: try_body_def)
qed

lemma try_body_AfterWrite:
  assumes "iv \<le> now - last_save_time r" and "fst (read (sess r) (bk r)) = Inr f"
    and "writable (disk r) (joinpath d (filename pre (frame_count r)))"
  shows "fst (try_body d iv pre (Tick now AfterWrite) r) = Some KeyboardInterrupt"
proof -
  from assms(2) obtain s1 B1 where "read (sess r) (bk r) = (Inr f, s1, B1)"
    by (cases "read (sess r) (bk r)") auto
  with assms(1,3) show ?thesis
    by (simp add: try_body_def save_frame_def mkdir_def Let_def)
qed

lemma try_body_write_fails:
  assumes "iv \<le> now - last_save_time r" and "i = NoInterrupt \<or> i = AfterWrite"
    and "fst (read (sess r) (bk r)) = Inr f"
    and "\<not> writable (disk r) (joinpath d (filename pre (frame_count r)))"
  shows "fst (try_body d iv pre (Tick now i) r) = Some FrameSaveError"
proof -
  from assms(3) obtain s1 B1 where "read (sess r) (bk r) = (Inr f, s1, B1)"
    by (cases "read (sess r) (bk r)") auto
  with assms(1,2,4) show ?thesis
    by (auto simp add: try_body_def save_frame_def mkdir_def Let_def)
qed

lemma save_loop_stop:
  assumes "\<not> at_loop_head t" and "fst (try_body d iv pre t r) = Some e"
  shows "fst (save_loop d iv pre (t # ts) r) =
           (if e = KeyboardInterrupt \<or> e = CameraReadError
            then Returned d (frame_count r) else Raised e)"
proof -
  from assms(2) obtain r1 where tb: "try_body d iv pre t r = (Some e, r1)"
    by (cases "try_body d iv pre t r") auto
  from try_body_Some [OF tb] have "frame_count r1 = frame_count r" by simp
  with tb assms(1) show ?thesis by simp
qed

lemma save_stream_snoc_Spinning:
  "save_stream s B fs save_path iv pre early ts1 = (Spinning, r1) \<Longrightarrow>
     save_stream s B fs save_path iv pre early (ts1 @ ts2) =
       save_loop (Path_of save_path) iv pre ts2 r1"
  by (simp add: save_stream_append)

lemma parent_joinpath: "parent (joinpath d name) = d"
  by (simp add: parent_def joinpath_def)

lemma mkdir_idem: "mkdir p (mkdir p fs) = mkdir p fs"
proof -
  have "filter (\<lambda>q. q \<notin> set (dirs fs) \<and> q \<notin> set (with_parents p)) (with_parents p) = []"
    by (simp add: filter_empty_conv)
  then have "filter (\<lambda>q. q \<notin> set (dirs (mkdir p fs))) (with_parents p) = []"
    by (simp add: mkdir_def filter_empty_conv)
  then show ?thesis by (simp add: mkdir_def)
qed

text \<open>
  C3. At any point of a recording run: when the gate is open, a frame is read, and the
  image writer refuses the file, save_stream raises FrameSaveError, whatever would have
  followed; it does not return a (directory, count) pair. And whenever save_stream does
  return a pair, the pass that ended the loop raised KeyboardInterrupt or
  CameraReadError: these are the only exceptions the loop handles.
\<close>

theorem FrameSaveError_propagates:
  "(save_stream s B fs save_path interval pre early ts1 = (Spinning, r1) \<and>
    interval \<le> now - last_save_time r1 \<and> (i = NoInterrupt \<or> i = AfterWrite) \<and>
    fst (read (sess r1) (bk r1)) = Inr f \<and>
    \<not> writable (disk r1) (joinpath (Path_of save_path) (filename pre (frame_count r1))) \<longrightarrow>
      fst (save_stream s B fs save_path interval pre early (ts1 @ Tick now i # ts2))
        = Raised FrameSaveError) \<and>
   (fst (save_stream s B fs save_path interval pre early ts) = Returned d n \<longrightarrow>
      (\<exists>us t vs r0. ts = us @ t # vs \<and>
         save_stream s B fs save_path interval pre early us = (Spinning, r0) \<and>
         (fst (try_body (Path_of save_path) interval pre t r0) = Some KeyboardInterrupt \<or>
          fst (try_body (Path_of save_path) interval pre t r0) = Some CameraReadError)))"
proof (intro conjI impI)
  assume a: "save_stream s B fs save_path interval pre early ts1 = (Spinning, r1) \<and>
    interval \<le> now - last_save_time r1 \<and> (i = NoInterrupt \<or> i = AfterWrite) \<and>
    fst (read (sess r1) (bk r1)) = Inr f \<and>
    \<not> writable (disk r1) (joinpath (Path_of save_path) (filename pre (frame_count r1)))"
  then have tb: "fst (try_body (Path_of save_path) interval pre (Tick now i) r1) = Some FrameSaveError"
    by (intro try_body_write_fails [where f = f]) simp_all
  from a have inside: "\<not> at_loop_head (Tick now i)" by auto
  from save_loop_stop [OF inside tb, of ts2]
  have "fst (save_loop (Path_of save_path) interval pre (Tick now i # ts2) r1) = Raised FrameSaveError"
    by (simp del: save_loop.simps)
  with a
  show "fst (save_stream s B fs save_path interval pre early (ts1 @ Tick now i # ts2))
          = Raised FrameSaveError"
    by (simp add: save_stream_snoc_Spinning del: save_loop.simps)
next
  assume ret: "fst (save_stream s B fs save_path interval pre early ts) = Returned d n"
  then obtain r' where "save_stream s B fs save_path interval pre early ts = (Returned d n, r')"
    by (cases "save_stream s B fs save_path interval pre early ts") simp
  then show "\<exists>us t vs r0. ts = us @ t # vs \<and>
         save_stream s B fs save_path interval pre early us = (Spinning, r0) \<and>
         (fst (try_body (Path_of save_path) interval pre t r0) = Some KeyboardInterrupt \<or>
          fst (try_body (Path_of save_path) interval pre t r0) = Some CameraReadError)"
    by (rule save_stream_Returned_cause)
qed

theorem FrameSaveError_propagates_witness:
  "fst (demo_run full_fs 0 [Tick 5 NoInterrupt, Tick 6 NoInterrupt, Tick 7 BeforeRead])
     = Raised FrameSaveError \<and>
   fst (demo_run full_fs 0 [Tick 5 BeforeRead]) = Returned [''out''] 0 \<and>
   (\<exists>us t vs r0. [Tick 5 BeforeRead] = us @ t # vs \<and>
      demo_run full_fs 0 us = (Spinning, r0) \<and>
      (fst (try_body (Path_of (PyStr ''out'')) 0 ''f'' t r0) = Some KeyboardInterrupt \<or>
       fst (try_body (Path_of (PyStr ''out'')) 0 ''f'' t r0) = Some CameraReadError))"
proof -
  let ?r1 = "snd (demo_run full_fs 0 [Tick 5 NoInterrupt])"
  have "fst (demo_run full_fs 0 [Tick 5 NoInterrupt]) = Spinning" by code_simp
  then have run: "demo_run full_fs 0 [Tick 5 NoInterrupt] = (Spinning, ?r1)"
    by (simp add: prod_eq_iff)
  have gate: "(0::real) \<le> 6 - last_save_time ?r1" by code_simp
  have rd: "fst (read (sess ?r1) (bk ?r1)) = Inr [(6, 5, 4)]" by code_simp
  have wr: "\<not> writable (disk ?r1) (joinpath (Path_of (PyStr ''out'')) (filename ''f'' (frame_count ?r1)))"
    by code_simp
  have ret: "fst (demo_run full_fs 0 [Tick 5 BeforeRead]) = Returned [''out''] 0" by code_simp
  note inst = FrameSaveError_propagates [where s = "demo_session 0" and B = demo_backend
      and fs = full_fs and save_path = "PyStr ''out''" and interval = 0 and pre = "''f''"
      and early = Undisturbed
      and ?ts1.0 = "[Tick 5 NoInterrupt]" and ?r1.0 = ?r1 and now = 6 and i = NoInterrupt
      and f = "[(6, 5, 4)]" and ?ts2.0 = "[Tick 7 BeforeRead]"
      and ts = "[Tick 5 BeforeRead]" and d = "[''out'']" and n = 0]
  have hyps: "demo_run full_fs 0 [Tick 5 NoInterrupt] = (Spinning, ?r1) \<and>
    (0::real) \<le> 6 - last_save_time ?r1 \<and> (NoInterrupt = NoInterrupt \<or> NoInterrupt = AfterWrite) \<and>
    fst (read (sess ?r1) (bk ?r1)) = Inr [(6, 5, 4)] \<and>
    \<not> writable (disk ?r1) (joinpath (Path_of (PyStr ''out'')) (filename ''f'' (frame_count ?r1)))"
    using run gate rd wr by (intro conjI disjI1 refl)
  have a: "fst (demo_run full_fs 0 ([Tick 5 NoInterrupt] @ Tick 6 NoInterrupt # [Tick 7 BeforeRead]))
       = Raised FrameSaveError"
    unfolding demo_run_def
    by (rule mp [OF conjunct1 [OF inst [unfolded demo_run_def]] hyps [unfolded demo_run_def]])
  have b: "\<exists>us t vs r0. [Tick 5 BeforeRead] = us @ t # vs \<and>
      demo_run full_fs 0 us = (Spinning, r0) \<and>
      (fst (try_body (Path_of (PyStr ''out'')) 0 ''f'' t r0) = Some KeyboardInterrupt \<or>
       fst (try_body (Path_of (PyStr ''out'')) 0 ''f'' t r0) = Some CameraReadError)"
    unfolding demo_run_def
    by (rule mp [OF conjunct2 [OF inst [unfolded demo_run_def]] ret [unfolded demo_run_def]])
  from a have a': "fst (demo_run full_fs 0 [Tick 5 NoInterrupt, Tick 6 NoInterrupt, Tick 7 BeforeRead])
       = Raised FrameSaveError"
    by (simp only: append.simps)
  from a' ret b show ?thesis by (intro conjI)
qed

text \<open>
  What the two \<^verbatim>\<open>except\<close> clauses do achieve: an interrupt raised inside the \<^verbatim>\<open>try\<close> block,
  or a CameraReadError from the read, ends the run by a return of the directory and the
  counter.
\<close>

lemma handled_stop_returns:
  assumes run: "save_stream s B fs save_path interval pre early ts1 = (Spinning, r1)"
    and stop:
      "i = BeforeRead \<or>
       (interval \<le> now - last_save_time r1 \<and>
          (fst (read (sess r1) (bk r1)) = Inl CameraReadError \<and> i \<noteq> BetweenPasses \<or>
           (\<exists>f. fst (read (sess r1) (bk r1)) = Inr f) \<and>
             (i = AfterRead \<or>
              (i = AfterWrite \<and>
               writable (disk r1) (joinpath (Path_of save_path) (filename pre (frame_count r1)))))))"
  shows "fst (save_stream s B fs save_path interval pre early (ts1 @ Tick now i # ts2)) =
           Returned (Path_of save_path) (frame_count r1)"
proof -
  let ?d = "Path_of save_path"
  have inside: "\<not> at_loop_head (Tick now i)"
    using stop by auto
  have "fst (try_body ?d interval pre (Tick now i) r1) = Some KeyboardInterrupt \<or>
        fst (try_body ?d interval pre (Tick now i) r1) = Some CameraReadError"
  proof (cases "i = BeforeRead")
    case True
    then show ?thesis by (simp add: try_body_BeforeRead)
  next
    case False
    with stop have gate: "interval \<le> now - last_save_time r1" by blast
    show ?thesis
    proof (cases "fst (read (sess r1) (bk r1))")
      case (Inl e)
      with stop False have "e = CameraReadError" by auto
      with Inl gate False show ?thesis by (simp add: try_body_read_raises)
    next
      case (Inr f)
      with stop False consider "i = AfterRead"
        | "i = AfterWrite" "writable (disk r1) (joinpath ?d (filename pre (frame_count r1)))"
        by auto
      then show ?thesis
      proof cases
        case 1
        with gate Inr show ?thesis by (simp add: try_body_AfterRead)
      next
        case 2
        with gate Inr show ?thesis by (simp add: try_body_AfterWrite)
      qed
    qed
  qed
  then have "fst (save_loop ?d interval pre (Tick now i # ts2) r1) = Returned ?d (frame_count r1)"
  proof
    assume "fst (try_body ?d interval pre (Tick now i) r1) = Some KeyboardInterrupt"
    from save_loop_stop [OF inside this, of ts2] show ?thesis
      by (simp del: save_loop.simps)
  next
    assume "fst (try_body ?d interval pre (Tick now i) r1) = Some CameraReadError"
    from save_loop_stop [OF inside this, of ts2] show ?thesis
      by (simp del: save_loop.simps)
  qed
  with run show ?thesis
    by (simp add: save_stream_snoc_Spinning del: save_loop.simps)
qed

text \<open>
  An interrupt that arrives at the head of the loop, after any number of passes, leaves
  save_stream as a KeyboardInterrupt; so does one that arrives before the loop.
\<close>

lemma interrupt_between_passes_escapes:
  "save_stream s B fs save_path interval pre early ts1 = (Spinning, r1) \<Longrightarrow>
     save_stream s B fs save_path interval pre early (ts1 @ Tick now BetweenPasses # ts2)
       = (Raised KeyboardInterrupt, r1)"
  by (simp add: save_stream_snoc_Spinning)

lemma interrupt_before_loop_escapes:
  "early \<noteq> Undisturbed \<Longrightarrow> is_open s \<Longrightarrow>
     fst (save_stream s B fs save_path interval pre early ts) = Raised KeyboardInterrupt"
  by (cases early) (simp_all add: save_stream_def ensure_open_def Let_def)

text \<open>
  C4. The claim (a cancellation always ends the run by a clean return of the directory and
  the number of frames saved so far) is what the handlers of the loop aim at, and the
  code misses it. On device 0, with every write accepted: an interrupt at the head of
  the second pass leaves save_stream as a KeyboardInterrupt although one frame is
  already saved; an interrupt between the opening guard and mkdir does the same; and an
  interrupt right after the second write makes it return the count 1 with two files
  written.
\<close>

theorem cancellation_not_always_clean:
  "fst (demo_run demo_fs 0 [Tick 5 NoInterrupt, Tick 6 BetweenPasses]) = Raised KeyboardInterrupt \<and>
   map fst (files (disk (snd (demo_run demo_fs 0 [Tick 5 NoInterrupt, Tick 6 BetweenPasses]))))
     = [[''out'', ''f_000000.jpg'']] \<and>
   fst (save_stream (demo_session 0) demo_backend demo_fs (PyStr ''out'') 0 ''f''
          InterruptBeforeMkdir []) = Raised KeyboardInterrupt \<and>
   fst (demo_run demo_fs 0 [Tick 5 NoInterrupt, Tick 6 AfterWrite]) = Returned [''out''] 1 \<and>
   map fst (files (disk (snd (demo_run demo_fs 0 [Tick 5 NoInterrupt, Tick 6 AfterWrite]))))
     = [[''out'', ''f_000000.jpg''], [''out'', ''f_000001.jpg'']]"
proof -
  have "fst (demo_run demo_fs 0 [Tick 5 NoInterrupt, Tick 6 BetweenPasses]) = Raised KeyboardInterrupt"
    by code_simp
  moreover
  have "map fst (files (disk (snd (demo_run demo_fs 0 [Tick 5 NoInterrupt, Tick 6 BetweenPasses]))))
     = [[''out'', ''f_000000.jpg'']]"
    by code_simp
  moreover
  have "fst (save_stream (demo_session 0) demo_backend demo_fs (PyStr ''out'') 0 ''f''
          InterruptBeforeMkdir []) = Raised KeyboardInterrupt"
    by code_simp
  moreover
  have "fst (demo_run demo_fs 0 [Tick 5 NoInterrupt, Tick 6 AfterWrite]) = Returned [''out''] 1"
    by code_simp
  moreover
  have "map fst (files (disk (snd (demo_run demo_fs 0 [Tick 5 NoInterrupt, Tick 6 AfterWrite]))))
     = [[''out'', ''f_000000.jpg''], [''out'', ''f_000001.jpg'']]"
    by code_simp
  ultimately show ?thesis by (intro conjI)
qed

text \<open>
  C2 (as amended). last_save_time starts at 0.0, so the gate of the first pass compares
  the clock with the interval. When the first clock reading is below the interval, the
  first pass reads no frame and writes no file, and the loop goes on polling. When the
  interval is at most the first clock reading (as for every interval up to the current
  Unix time), the first pass reads the first frame and saves it as prefix_000000.jpg,
  sets last_save_time to the clock reading and the counter to 1. (The run is one that is
  not interrupted before the loop or at its head.)
\<close>

theorem first_pass_gate:
  "(ensure_open s B = (None, s1, B1) \<and> now < interval \<and>
    i \<noteq> BetweenPasses \<and> i \<noteq> BeforeRead \<longrightarrow>
      save_stream s B fs save_path interval pre Undisturbed (Tick now i # ts) =
        save_loop (Path_of save_path) interval pre ts
          \<lparr>sess = s1, bk = B1, disk = mkdir (Path_of save_path) fs,
           last_save_time = 0, frame_count = 0\<rparr>) \<and>
   (ensure_open s B = (None, s1, B1) \<and> interval \<le> now \<and>
    read s1 B1 = (Inr f, s2, B2) \<and>
    writable fs (joinpath (Path_of save_path) (filename pre 0)) \<longrightarrow>
      save_stream s B fs save_path interval pre Undisturbed (Tick now NoInterrupt # ts) =
        save_loop (Path_of save_path) interval pre ts
          \<lparr>sess = s2, bk = B2,
           disk = (mkdir (Path_of save_path) fs)
                    \<lparr>files := files fs @
                       [(joinpath (Path_of save_path) (filename pre 0),
                         if convert_to_rgb (config s2) then cvtColor f else f)]\<rparr>,
           last_save_time = now, frame_count = 1\<rparr>)"
proof (intro conjI impI)
  assume a: "ensure_open s B = (None, s1, B1) \<and> now < interval \<and>
    i \<noteq> BetweenPasses \<and> i \<noteq> BeforeRead"
  then have "try_body (Path_of save_path) interval pre (Tick now i)
               (start s1 B1 fs (Path_of save_path)) = (None, start s1 B1 fs (Path_of save_path))"
    by (intro try_body_closed_gate) (simp_all add: start_def)
  with a show "save_stream s B fs save_path interval pre Undisturbed (Tick now i # ts) =
        save_loop (Path_of save_path) interval pre ts
          \<lparr>sess = s1, bk = B1, disk = mkdir (Path_of save_path) fs,
           last_save_time = 0, frame_count = 0\<rparr>"
    by (simp add: save_stream_opened) (simp add: start_def)
next
  let ?d = "Path_of save_path"
  assume a: "ensure_open s B = (None, s1, B1) \<and> interval \<le> now \<and>
    read s1 B1 = (Inr f, s2, B2) \<and> writable fs (joinpath ?d (filename pre 0))"
  have "try_body ?d interval pre (Tick now NoInterrupt) (start s1 B1 fs ?d) =
      (None, \<lparr>sess = s2, bk = B2,
           disk = (mkdir ?d fs)
                    \<lparr>files := files fs @
                       [(joinpath ?d (filename pre 0),
                         if convert_to_rgb (config s2) then cvtColor f else f)]\<rparr>,
           last_save_time = now, frame_count = 1\<rparr>)"
    using a mkdir_idem [of ?d fs]
    by (simp add: try_body_def start_def save_frame_def parent_joinpath Let_def)
       (simp add: mkdir_def)
  with a show "save_stream s B fs save_path interval pre Undisturbed (Tick now NoInterrupt # ts) =
        save_loop ?d interval pre ts
          \<lparr>sess = s2, bk = B2,
           disk = (mkdir ?d fs)
                    \<lparr>files := files fs @
                       [(joinpath ?d (filename pre 0),
                         if convert_to_rgb (config s2) then cvtColor f else f)]\<rparr>,
           last_save_time = now, frame_count = 1\<rparr>"
    by (simp add: save_stream_opened)
qed

theorem first_pass_gate_witness:
  "demo_run demo_fs 2000000000 [Tick 1700000000 AfterRead] =
     (Spinning, \<lparr>sess = demo_session 0\<lparr>cap := Some demo_capture, is_open := True\<rparr>,
                 bk = demo_backend, disk = mkdir [''out''] demo_fs,
                 last_save_time = 0, frame_count = 0\<rparr>) \<and>
   map fst (files (disk (snd (demo_run demo_fs 60 [Tick 1700000000 NoInterrupt]))))
     = [[''out'', ''f_000000.jpg'']] \<and>
   frame_count (snd (demo_run demo_fs 60 [Tick 1700000000 NoInterrupt])) = 1"
proof -
  let ?s1 = "demo_session 0\<lparr>cap := Some demo_capture, is_open := True\<rparr>"
  let ?s2 = "?s1\<lparr>cap := Some (demo_capture\<lparr>feed := [Some [(4, 5, 6)], None]\<rparr>)\<rparr>"
  have eo: "ensure_open (demo_session 0) demo_backend = (None, ?s1, demo_backend)"
    by (simp add: demo_defs ensure_open_def open_session_def set_if_given_def)
  have rd: "read ?s1 demo_backend = (Inr [(3, 2, 1)], ?s2, demo_backend)"
    by (simp add: demo_defs read_def ensure_open_def cap_read_def cvtColor_def)
  have wr: "writable demo_fs (joinpath (Path_of (PyStr ''out'')) (filename ''f'' 0))"
    by (simp add: demo_fs_def)
  have p: "Path_of (PyStr ''out'') = [''out'']" by simp
  have f0: "filename ''f'' 0 = ''f_000000.jpg''" by code_simp
  from first_pass_gate [where s = "demo_session 0" and B = demo_backend and ?s1.0 = ?s1
      and ?B1.0 = demo_backend and now = 1700000000 and interval = 2000000000 and i = AfterRead
      and fs = demo_fs and save_path = "PyStr ''out''" and pre = "''f''" and ts = "[]"] eo p
  have a: "demo_run demo_fs 2000000000 [Tick 1700000000 AfterRead] =
     (Spinning, \<lparr>sess = ?s1, bk = demo_backend, disk = mkdir [''out''] demo_fs,
                 last_save_time = 0, frame_count = 0\<rparr>)"
    by (simp add: demo_run_def)
  from first_pass_gate [where s = "demo_session 0" and B = demo_backend and ?s1.0 = ?s1
      and ?B1.0 = demo_backend and now = 1700000000 and interval = 60 and f = "[(3, 2, 1)]"
      and ?s2.0 = ?s2 and ?B2.0 = demo_backend
      and fs = demo_fs and save_path = "PyStr ''out''" and pre = "''f''" and ts = "[]"] eo rd wr p f0
  have b: "map fst (files (disk (snd (demo_run demo_fs 60 [Tick 1700000000 NoInterrupt]))))
     = [[''out'', ''f_000000.jpg'']] \<and>
   frame_count (snd (demo_run demo_fs 60 [Tick 1700000000 NoInterrupt])) = 1"
    by (simp add: demo_run_def demo_fs_def mkdir_def joinpath_def)
  from a b show ?thesis by simp
qed

text \<open>
  The claim as first stated (for every interval the first frame passes the gate) fails
  for an interval of 2,000,000,000 seconds at clock reading 1,700,000,000: the pass reads
  nothing from the device and writes nothing.
\<close>

theorem first_pass_gate_counterexample:
  "fst (demo_run demo_fs 2000000000 [Tick 1700000000 NoInterrupt]) = Spinning \<and>
   files (disk (snd (demo_run demo_fs 2000000000 [Tick 1700000000 NoInterrupt]))) = [] \<and>
   map_option feed (cap (sess (snd (demo_run demo_fs 2000000000 [Tick 1700000000 NoInterrupt]))))
     = Some [Some [(1, 2, 3)], Some [(4, 5, 6)], None]"
  by code_simp

end
